theory Spec2Isabelle
  imports Complex_Main
begin

section \<open>The trading bot of \<^verbatim>\<open>src/trader1.py\<close>: data model\<close>

text \<open>
  The class \<^verbatim>\<open>DerivTradingBot\<close> keeps a rolling list of candles and at most one open
  position. Its methods mutate the instance and may raise; here every method takes the
  bot and returns the bot it leaves behind, together with the exception it raised, if any.

  Prices are Python floats in the source and real numbers here: comparisons, \<^verbatim>\<open>max\<close>,
  \<^verbatim>\<open>min\<close> are the same, rounding of \<^verbatim>\<open>-\<close> and \<^verbatim>\<open>/\<close> and the values NaN and infinity are
  outside the model. The fields of the instance that no modelled method reads
  (\<^verbatim>\<open>api_token\<close>, \<^verbatim>\<open>symbol\<close>, \<^verbatim>\<open>ws_url\<close>, \<^verbatim>\<open>ws\<close>, \<^verbatim>\<open>risk_percent\<close>,
  \<^verbatim>\<open>profit_target_ratio\<close>) are left out; \<^verbatim>\<open>execute_trade\<close> builds a request from
  \<^verbatim>\<open>symbol\<close> and drops it.
\<close>

datatype error = KeyError | ValueError | TypeError | OverflowError | IndexError
  | ZeroDivisionError | TimestampError

text \<open>
  A value as \<^verbatim>\<open>json.loads\<close> delivers it: a JSON number without fraction or exponent is a
  Python \<^verbatim>\<open>int\<close>, any other number a \<^verbatim>\<open>float\<close>. Arrays and objects carry no content:
  \<^verbatim>\<open>float\<close> raises \<^verbatim>\<open>TypeError\<close> on every one of them.
\<close>

datatype jvalue = JInt int | JFloat real | JStr string | JBool bool | JNull | JArr | JObj

text \<open>
  What the model takes from Python itself: \<^verbatim>\<open>float\<close> on a string (\<open>None\<close> where it raises
  \<^verbatim>\<open>ValueError\<close>), and the timestamps \<^verbatim>\<open>datetime.fromtimestamp\<close> accepts, which depend on
  the platform and the time zone (\<open>TimestampError\<close> stands for the \<^verbatim>\<open>OverflowError\<close>,
  \<^verbatim>\<open>OSError\<close> or \<^verbatim>\<open>ValueError\<close> it raises otherwise).
\<close>

record pyenv =
  str_float :: "string \<Rightarrow> real option"
  ts_valid :: "int \<Rightarrow> bool"

text \<open>
  One entry of the feed (\<^verbatim>\<open>data['ohlc']\<close>, or an element of \<^verbatim>\<open>data['candles']\<close>): a
  dictionary of which the code reads five keys; \<open>None\<close> is a missing key. The epoch, when
  present, is an integer: the code stores it unconverted, and other JSON types there are
  outside the model.
\<close>

record raw_candle =
  epoch :: "int option"
  open_raw :: "jvalue option"
  high_raw :: "jvalue option"
  low_raw :: "jvalue option"
  close_raw :: "jvalue option"

record candle =
  time :: int
  open_price :: real
  high :: real
  low :: real
  close :: real

datatype pattern_kind = double_top | double_bottom

datatype trade_type = PUT | CALL

text \<open>
  The dictionaries returned by the two detectors share five keys; \<^verbatim>\<open>execute_trade\<close> reads
  only shared ones.
\<close>

record signal =
  pattern :: pattern_kind
  neckline :: real
  entry :: real
  stop_loss :: real
  take_profit :: real

record top_signal = signal +
  peak1 :: real
  peak2 :: real

record bottom_signal = signal +
  trough1 :: real
  trough2 :: real

record position =
  pos_type :: trade_type
  pos_entry :: real
  pos_stop_loss :: real
  pos_take_profit :: real

text \<open>What the bot prints, one constructor per message (a detection prints seven lines).\<close>

datatype line =
    Loaded nat
  | Analyzing int
  | TopDetected top_signal
  | BottomDetected bottom_signal
  | AlreadyInPosition
  | Executing trade_type
  | TradeLogged

record bot =
  candles :: "candle list"
  position :: "position option"
  lookback_period :: int
  tolerance :: real
  min_candles_between :: int
  out :: "line list"

text \<open>\<^verbatim>\<open>__init__\<close>.\<close>

definition init_bot :: bot where
  "init_bot = \<lparr>candles = [], position = None, lookback_period = 50,
     tolerance = 2 / 1000, min_candles_between = 10, out = []\<rparr>"

definition print :: "line \<Rightarrow> bot \<Rightarrow> bot" where
  "print l b = b\<lparr>out := out b @ [l]\<rparr>"

section \<open>Reading a candle\<close>

text \<open>
  \<^verbatim>\<open>float\<close>. An \<^verbatim>\<open>int\<close> is converted when it rounds to a finite double, that is when its
  absolute value is below \<open>2 ^ 1024 - 2 ^ 970\<close>, and raises \<^verbatim>\<open>OverflowError\<close> otherwise; a
  \<^verbatim>\<open>bool\<close> is an \<^verbatim>\<open>int\<close> and gives 1 or 0.
\<close>

definition in_double_range :: "int \<Rightarrow> bool" where
  "in_double_range i = (\<bar>i\<bar> < 2 ^ 1024 - 2 ^ 970)"

fun float_py :: "pyenv \<Rightarrow> jvalue \<Rightarrow> error + real" where
  "float_py env (JInt i) = (if in_double_range i then Inr (of_int i) else Inl OverflowError)"
| "float_py env (JFloat r) = Inr r"
| "float_py env (JStr s) = (case str_float env s of None \<Rightarrow> Inl ValueError | Some r \<Rightarrow> Inr r)"
| "float_py env (JBool b) = Inr (if b then 1 else 0)"
| "float_py env JNull = Inl TypeError"
| "float_py env JArr = Inl TypeError"
| "float_py env JObj = Inl TypeError"

text \<open>\<^verbatim>\<open>float(ohlc[key])\<close>: the lookup raises \<^verbatim>\<open>KeyError\<close> before \<^verbatim>\<open>float\<close> runs.\<close>

fun float_field :: "pyenv \<Rightarrow> jvalue option \<Rightarrow> error + real" where
  "float_field env None = Inl KeyError"
| "float_field env (Some v) = float_py env v"

text \<open>
  The dictionary display of lines 101 to 107 (and 89 to 95): the keys are evaluated in
  the order written, and the first exception ends the evaluation.
\<close>

definition new_candle :: "pyenv \<Rightarrow> raw_candle \<Rightarrow> error + candle" where
  "new_candle env ohlc =
     (case epoch ohlc of None \<Rightarrow> Inl KeyError | Some t \<Rightarrow>
     (case float_field env (open_raw ohlc) of Inl e \<Rightarrow> Inl e | Inr opn \<Rightarrow>
     (case float_field env (high_raw ohlc) of Inl e \<Rightarrow> Inl e | Inr h \<Rightarrow>
     (case float_field env (low_raw ohlc) of Inl e \<Rightarrow> Inl e | Inr l \<Rightarrow>
     (case float_field env (close_raw ohlc) of Inl e \<Rightarrow> Inl e | Inr c \<Rightarrow>
        Inr \<lparr>time = t, open_price = opn, high = h, low = l, close = c\<rparr>)))))"

section \<open>Extrema\<close>

text \<open>
  \<^verbatim>\<open>find_peaks\<close> and \<^verbatim>\<open>find_troughs\<close>. The order is a natural number here. For
  \<open>i\<close> in \<^verbatim>\<open>range(order, len(data) - order)\<close> and \<open>j\<close> in \<^verbatim>\<open>range(1, order+1)\<close> both
  \<open>i - j\<close> and \<open>i + j\<close> are indices of the list, so no read is out of range.
\<close>

definition find_peaks :: "real list \<Rightarrow> nat \<Rightarrow> nat list" where
  "find_peaks data order =
     filter (\<lambda>i. list_all (\<lambda>j. data ! i \<ge> data ! (i - j)) [1..<order + 1] \<and>
                  list_all (\<lambda>j. data ! i \<ge> data ! (i + j)) [1..<order + 1])
       [order..<length data - order]"

definition find_troughs :: "real list \<Rightarrow> nat \<Rightarrow> nat list" where
  "find_troughs data order =
     filter (\<lambda>i. list_all (\<lambda>j. data ! i \<le> data ! (i - j)) [1..<order + 1] \<and>
                  list_all (\<lambda>j. data ! i \<le> data ! (i + j)) [1..<order + 1])
       [order..<length data - order]"

section \<open>The detectors\<close>

text \<open>Python's indexing by a non-negative index, \<^verbatim>\<open>xs[-1]\<close>, \<^verbatim>\<open>min\<close> and \<^verbatim>\<open>max\<close> of a list.\<close>

definition getE :: "'a list \<Rightarrow> nat \<Rightarrow> error + 'a" where
  "getE xs i = (if i < length xs then Inr (xs ! i) else Inl IndexError)"

definition lastE :: "'a list \<Rightarrow> error + 'a" where
  "lastE xs = (if xs = [] then Inl IndexError else Inr (last xs))"

fun min_py :: "real list \<Rightarrow> error + real" where
  "min_py [] = Inl ValueError"
| "min_py (x # xs) = Inr (fold min xs x)"

fun max_py :: "real list \<Rightarrow> error + real" where
  "max_py [] = Inl ValueError"
| "max_py (x # xs) = Inr (fold max xs x)"

definition bindE :: "error + 'a \<Rightarrow> ('a \<Rightarrow> error + 'b) \<Rightarrow> error + 'b" where
  "bindE m f = (case m of Inl e \<Rightarrow> Inl e | Inr x \<Rightarrow> f x)"

text \<open>
  \<^verbatim>\<open>[self.candles[j][key] for j in range(lo, hi + 1)]\<close>: the comprehension raises
  \<^verbatim>\<open>IndexError\<close> at the first index past the end of the window.
\<close>

definition between :: "(candle \<Rightarrow> real) \<Rightarrow> candle list \<Rightarrow> nat \<Rightarrow> nat \<Rightarrow> error + real list" where
  "between key cs lo hi =
     (if lo \<le> hi \<and> length cs \<le> hi then Inl IndexError
      else Inr (map (\<lambda>j. key (cs ! j)) [lo..<hi + 1]))"

text \<open>
  The loop of \<^verbatim>\<open>detect_double_top\<close>, \<^verbatim>\<open>for i in range(len(peaks) - 2, -1, -1)\<close>: the
  last argument counts the iterations still to run, and \<open>Suc i\<close> runs the body at \<open>i\<close>.
  The division by \<^verbatim>\<open>peak1_price\<close> raises when that price is zero.
\<close>

fun top_loop :: "bot \<Rightarrow> real list \<Rightarrow> nat list \<Rightarrow> nat \<Rightarrow> error + top_signal option" where
  "top_loop b highs peaks 0 = Inr None"
| "top_loop b highs peaks (Suc i) =
     bindE (getE peaks i) (\<lambda>peak1_idx.
     bindE (getE peaks (i + 1)) (\<lambda>peak2_idx.
       if int peak2_idx - int peak1_idx < min_candles_between b
       then top_loop b highs peaks i
       else
     bindE (getE highs peak1_idx) (\<lambda>peak1_price.
     bindE (getE highs peak2_idx) (\<lambda>peak2_price.
       if peak1_price = 0 then Inl ZeroDivisionError
       else if \<bar>peak1_price - peak2_price\<bar> / peak1_price \<le> tolerance b
       then
     bindE (between low (candles b) peak1_idx peak2_idx) (\<lambda>between_lows.
     bindE (min_py between_lows) (\<lambda>neckline.
     bindE (lastE (candles b)) (\<lambda>c.
       let current_price = close c in
       if current_price < neckline
       then Inr (Some \<lparr>pattern = double_top, neckline = neckline, entry = current_price,
              stop_loss = max peak1_price peak2_price,
              take_profit = neckline - (max peak1_price peak2_price - neckline),
              peak1 = peak1_price, peak2 = peak2_price\<rparr>)
       else top_loop b highs peaks i)))
       else top_loop b highs peaks i))))"

definition detect_double_top :: "bot \<Rightarrow> error + top_signal option" where
  "detect_double_top b =
     (if length (candles b) < 20 then Inr None
      else let highs = map high (candles b); peaks = find_peaks highs 3 in
        if length peaks < 2 then Inr None
        else top_loop b highs peaks (length peaks - 1))"

fun bottom_loop :: "bot \<Rightarrow> real list \<Rightarrow> nat list \<Rightarrow> nat \<Rightarrow> error + bottom_signal option" where
  "bottom_loop b lows troughs 0 = Inr None"
| "bottom_loop b lows troughs (Suc i) =
     bindE (getE troughs i) (\<lambda>trough1_idx.
     bindE (getE troughs (i + 1)) (\<lambda>trough2_idx.
       if int trough2_idx - int trough1_idx < min_candles_between b
       then bottom_loop b lows troughs i
       else
     bindE (getE lows trough1_idx) (\<lambda>trough1_price.
     bindE (getE lows trough2_idx) (\<lambda>trough2_price.
       if trough1_price = 0 then Inl ZeroDivisionError
       else if \<bar>trough1_price - trough2_price\<bar> / trough1_price \<le> tolerance b
       then
     bindE (between high (candles b) trough1_idx trough2_idx) (\<lambda>between_highs.
     bindE (max_py between_highs) (\<lambda>neckline.
     bindE (lastE (candles b)) (\<lambda>c.
       let current_price = close c in
       if current_price > neckline
       then Inr (Some \<lparr>pattern = double_bottom, neckline = neckline, entry = current_price,
              stop_loss = min trough1_price trough2_price,
              take_profit = neckline + (neckline - min trough1_price trough2_price),
              trough1 = trough1_price, trough2 = trough2_price\<rparr>)
       else bottom_loop b lows troughs i)))
       else bottom_loop b lows troughs i))))"

definition detect_double_bottom :: "bot \<Rightarrow> error + bottom_signal option" where
  "detect_double_bottom b =
     (if length (candles b) < 20 then Inr None
      else let lows = map low (candles b); troughs = find_troughs lows 3 in
        if length troughs < 2 then Inr None
        else bottom_loop b lows troughs (length troughs - 1))"

section \<open>Execution and the analysis pass\<close>

text \<open>
  \<^verbatim>\<open>execute_trade\<close>: \<^verbatim>\<open>self.position\<close> is \<^verbatim>\<open>None\<close> or a dictionary of four keys, so it is
  true exactly when it is not \<^verbatim>\<open>None\<close>. The request is built and dropped (the send is
  commented out), \<^verbatim>\<open>risk_amount\<close> is computed and not used.
\<close>

definition execute_trade :: "trade_type \<Rightarrow> 'a signal_scheme \<Rightarrow> bot \<Rightarrow> bot" where
  "execute_trade tt sig b =
     (if position b \<noteq> None then print AlreadyInPosition b
      else print TradeLogged
             ((print (Executing tt) b)
                \<lparr>position := Some \<lparr>pos_type = tt, pos_entry = entry sig,
                   pos_stop_loss = stop_loss sig, pos_take_profit = take_profit sig\<rparr>\<rparr>))"

text \<open>
  \<^verbatim>\<open>analyze_patterns\<close>: \<^verbatim>\<open>self.candles[-1]\<close> raises on an empty window, then
  \<^verbatim>\<open>fromtimestamp\<close> may raise, both before anything is printed. An exception of the second
  detector leaves the position the first one opened.
\<close>

definition analyze_patterns :: "pyenv \<Rightarrow> bot \<Rightarrow> error option \<times> bot" where
  "analyze_patterns env b =
     (case lastE (candles b) of Inl e \<Rightarrow> (Some e, b) | Inr c \<Rightarrow>
        if \<not> ts_valid env (time c) then (Some TimestampError, b)
        else
          (let b1 = print (Analyzing (time c)) b in
           (case detect_double_top b1 of Inl e \<Rightarrow> (Some e, b1) | Inr dt \<Rightarrow>
             (let b2 = (case dt of None \<Rightarrow> b1
                        | Some sig \<Rightarrow> execute_trade PUT sig (print (TopDetected sig) b1)) in
              (case detect_double_bottom b2 of Inl e \<Rightarrow> (Some e, b2) | Inr db \<Rightarrow>
                 (None, (case db of None \<Rightarrow> b2
                         | Some sig \<Rightarrow>
                             execute_trade CALL sig (print (BottomDetected sig) b2))))))))"

section \<open>The window\<close>

text \<open>
  \<^verbatim>\<open>update_candle\<close>: the candle is built before the window is touched; the window is
  changed before the analysis runs, so an exception of the analysis leaves the changed
  window.
\<close>

definition update_candle :: "pyenv \<Rightarrow> raw_candle \<Rightarrow> bot \<Rightarrow> error option \<times> bot" where
  "update_candle env ohlc b =
     (case new_candle env ohlc of Inl e \<Rightarrow> (Some e, b) | Inr c \<Rightarrow>
        if candles b \<noteq> [] \<and> time (last (candles b)) = time c
        then (None, b\<lparr>candles := (candles b)[length (candles b) - 1 := c]\<rparr>)
        else
          (let b1 = b\<lparr>candles := candles b @ [c]\<rparr>;
               b2 = (if int (length (candles b1)) > lookback_period b1
                     then b1\<lparr>candles := tl (candles b1)\<rparr> else b1)
           in analyze_patterns env b2))"

text \<open>
  \<^verbatim>\<open>process_candles\<close>: the window is emptied first and filled one candle at a time, so a
  candle that cannot be read leaves the candles before it.
\<close>

fun load_loop :: "pyenv \<Rightarrow> raw_candle list \<Rightarrow> bot \<Rightarrow> error option \<times> bot" where
  "load_loop env [] b = (None, b)"
| "load_loop env (r # rs) b =
     (case new_candle env r of Inl e \<Rightarrow> (Some e, b)
      | Inr c \<Rightarrow> load_loop env rs (b\<lparr>candles := candles b @ [c]\<rparr>))"

definition process_candles :: "pyenv \<Rightarrow> raw_candle list \<Rightarrow> bot \<Rightarrow> error option \<times> bot" where
  "process_candles env rs b =
     (case load_loop env rs (b\<lparr>candles := []\<rparr>) of
        (Some e, b') \<Rightarrow> (Some e, b')
      | (None, b') \<Rightarrow> analyze_patterns env (print (Loaded (length (candles b'))) b'))"

text \<open>
  The feed: \<^verbatim>\<open>on_message\<close> hands every \<^verbatim>\<open>ohlc\<close> message to \<^verbatim>\<open>update_candle\<close>, one after the
  other, on the same instance; an exception ends one call and not the instance.
\<close>

definition feed :: "pyenv \<Rightarrow> raw_candle list \<Rightarrow> bot \<Rightarrow> bot" where
  "feed env rs b = fold (\<lambda>r s. snd (update_candle env r s)) rs b"

section \<open>Inputs named by the properties, and sample data\<close>





text \<open>The entry of the feed that carries a given candle, every price a JSON float.\<close>

definition raw_of :: "candle \<Rightarrow> raw_candle" where
  "raw_of c = \<lparr>epoch = Some (time c), open_raw = Some (JFloat (open_price c)),
     high_raw = Some (JFloat (high c)), low_raw = Some (JFloat (low c)),
     close_raw = Some (JFloat (close c))\<rparr>"

text \<open>A Python in which no string is a number and every timestamp is accepted.\<close>

definition env0 :: pyenv where
  "env0 = \<lparr>str_float = (\<lambda>s. None), ts_valid = (\<lambda>t. True)\<rparr>"

text \<open>Flat five-minute candles, and windows written as (high, low, close) triples.\<close>

definition tick :: "nat \<Rightarrow> candle" where
  "tick k = \<lparr>time = 300 * int k, open_price = 1, high = 1, low = 1, close = 1\<rparr>"

fun mk_window :: "int \<Rightarrow> (real \<times> real \<times> real) list \<Rightarrow> candle list" where
  "mk_window t [] = []"
| "mk_window t ((h, l, c) # xs) =
     \<lparr>time = t, open_price = c, high = h, low = l, close = c\<rparr> # mk_window (t + 300) xs"

definition at_window :: "candle list \<Rightarrow> bot" where
  "at_window cs = init_bot\<lparr>candles := cs\<rparr>"

text \<open>
  Thirteen candles whose highs are the first thirteen values of the series
  1, 2, 3, 10, 3, 2, 1, 1, 2, 3, 10, 3, 2, 1, then two ways to go on: the fourteenth
  candle closing under every low between the two tops, and the fourteenth candle
  followed by six falling candles, the last of which closes under those lows.
\<close>

definition series_head :: "(real \<times> real \<times> real) list" where
  "series_head = [(1,1/2,3/4), (2,1,3/2), (3,3/2,2), (10,5,6), (3,3/2,2), (2,1,3/2),
      (1,1/2,3/4), (1,1/2,3/4), (2,1,3/2), (3,3/2,2), (10,5,6), (3,3/2,2), (2,1,3/2)]"

definition series_window :: "candle list" where
  "series_window = mk_window 0 (series_head @ [(1,1/5,3/10)])"

definition series_window_20 :: "candle list" where
  "series_window_20 = mk_window 0 (series_head @
     [(1,1/2,3/4), (9/10,4/5,4/5), (4/5,7/10,7/10), (7/10,3/5,3/5), (3/5,1/2,1/2),
      (1/2,2/5,2/5), (2/5,3/10,3/10)])"

text \<open>Twenty candles with tops of 10 at the indices 3 and 13, the last close under 3.\<close>

definition top_window_10 :: "candle list" where
  "top_window_10 = mk_window 0
     [(7,5,6), (8,6,7), (9,7,8), (10,8,9), (9,7,8), (8,6,7), (7,5,6), (6,4,5), (5,3,4),
      (6,4,5), (7,5,6), (8,6,7), (9,7,8), (10,8,9), (9,7,8), (8,6,7), (7,5,6), (6,4,5),
      (5,3,4), (4,2,5/2)]"



text \<open>
  Thirty-four candles: two bottoms of 10 at the indices 3 and 13 under highs of at most 17,
  two tops of 100 at the indices 20 and 30 over lows of at least 92, and a last candle
  that falls to a close of 50.
\<close>

definition both_window :: "candle list" where
  "both_window = mk_window 0
     [(15,13,14), (14,12,13), (13,11,12), (12,10,11), (13,11,12), (14,12,13), (15,13,14),
      (16,14,15), (17,15,16), (16,14,15), (15,13,14), (14,12,13), (13,11,12), (12,10,11),
      (13,11,12), (14,12,13), (15,13,14),
      (97,94,96), (98,95,97), (99,96,98), (100,97,99), (99,96,97), (98,95,96), (97,94,95),
      (96,93,94), (95,92,93), (96,93,95), (97,94,96), (98,95,97), (99,96,98), (100,97,99),
      (99,96,97), (98,95,96), (97,45,50)]"

text \<open>
  Twenty candles with prices from 0 to 7: a top of 0 at the index 3, the next top of 7 at
  the index 13.
\<close>

definition zero_top_window :: "candle list" where
  "zero_top_window = mk_window 0
     [(0,0,0), (0,0,0), (0,0,0), (0,0,0), (0,0,0), (0,0,0), (0,0,0), (1,0,1), (2,1,2),
      (3,2,3), (4,3,4), (5,4,5), (6,5,6), (7,6,7), (6,5,6), (5,4,5), (4,3,4), (3,2,3),
      (2,1,2), (1,0,1)]"

section \<open>Reading a candle: lemmas\<close>








lemma new_candle_raw_of: "new_candle env (raw_of c) = Inr c"
  by (simp add: new_candle_def raw_of_def)

section \<open>What an analysis pass and an upsert leave untouched\<close>

lemma execute_trade_frame:
  "candles (execute_trade tt sig b) = candles b \<and>
   lookback_period (execute_trade tt sig b) = lookback_period b \<and>
   tolerance (execute_trade tt sig b) = tolerance b \<and>
   min_candles_between (execute_trade tt sig b) = min_candles_between b"
  by (simp add: execute_trade_def print_def)

lemma analyze_patterns_frame:
  "candles (snd (analyze_patterns env b)) = candles b \<and>
   lookback_period (snd (analyze_patterns env b)) = lookback_period b \<and>
   tolerance (snd (analyze_patterns env b)) = tolerance b \<and>
   min_candles_between (snd (analyze_patterns env b)) = min_candles_between b"
  by (simp add: analyze_patterns_def Let_def execute_trade_frame print_def
      split: sum.splits option.splits)

lemma update_last: "xs \<noteq> [] \<Longrightarrow> xs[length xs - 1 := c] = butlast xs @ [c]"
  by (cases xs rule: rev_cases) (simp_all add: list_update_append)

lemma update_candle_window:
  assumes "new_candle env ohlc = Inr c"
  shows "candles (snd (update_candle env ohlc b)) =
           (if candles b \<noteq> [] \<and> time (last (candles b)) = time c
            then butlast (candles b) @ [c]
            else if int (length (candles b)) + 1 > lookback_period b
            then tl (candles b @ [c]) else candles b @ [c])"
  using assms update_last[of "candles b" c]
  by (simp add: update_candle_def Let_def analyze_patterns_frame)

lemma update_candle_config:
  "lookback_period (snd (update_candle env ohlc b)) = lookback_period b \<and>
   tolerance (snd (update_candle env ohlc b)) = tolerance b \<and>
   min_candles_between (snd (update_candle env ohlc b)) = min_candles_between b"
  by (simp add: update_candle_def Let_def analyze_patterns_frame split: sum.splits)

lemma feed_snoc: "feed env (rs @ [r]) b = snd (update_candle env r (feed env rs b))"
  by (simp add: feed_def)

lemma feed_take_Suc:
  "n < length rs \<Longrightarrow>
   feed env (take (Suc n) rs) b = snd (update_candle env (rs ! n) (feed env (take n rs) b))"
  by (simp add: take_Suc_conv_app_nth feed_snoc)

lemma feed_config: "lookback_period (feed env rs b) = lookback_period b"
  by (induction rs rule: rev_induct) (simp_all add: feed_snoc update_candle_config feed_def)

section \<open>The window under a feed of increasing times\<close>

text \<open>
  With strictly increasing times every upsert takes the append branch, and the window
  is the last fifty candles fed.
\<close>

lemma feed_increasing:
  assumes "candles b = []" and "lookback_period b = 50" and "length cs = length rs"
    and "\<forall>i<length rs. new_candle env (rs ! i) = Inr (cs ! i)"
    and "sorted_wrt (<) (map time cs)"
  shows "n \<le> length rs \<Longrightarrow> candles (feed env (take n rs) b) = drop (n - 50) (take n cs)"
proof (induction n)
  case 0
  then show ?case using assms(1) by (simp add: feed_def)
next
  case (Suc n)
  let ?w = "drop (n - 50) (take n cs)"
  from Suc have n: "n < length rs" and w: "candles (feed env (take n rs) b) = ?w" by simp_all
  from n assms(3) have ncs: "n < length cs" by simp
  from n assms(4) have c: "new_candle env (rs ! n) = Inr (cs ! n)" by simp
  have tk: "take (Suc n) cs = take n cs @ [cs ! n]"
    using ncs by (simp add: take_Suc_conv_app_nth)
  have lastw: "time (last ?w) \<noteq> time (cs ! n)" if "?w \<noteq> []"
  proof -
    from that have "0 < n" by (cases n) simp_all
    with ncs have "last ?w = cs ! (n - 1)"
      using that by (simp add: last_conv_nth)
    moreover have "map time cs ! (n - 1) < map time cs ! n"
      using assms(5) ncs \<open>0 < n\<close> by (intro sorted_wrt_nth_less) simp_all
    ultimately show ?thesis using ncs by simp
  qed
  have len: "length ?w = min n 50" using ncs by auto
  have "candles (feed env (take (Suc n) rs) b) =
          (if int (length ?w) + 1 > 50 then tl (?w @ [cs ! n]) else ?w @ [cs ! n])"
    using lastw
    by (auto simp add: feed_take_Suc[OF n] update_candle_window[OF c] w feed_config assms(2))
  also have "\<dots> = drop (Suc n - 50) (take (Suc n) cs)"
  proof (cases "50 \<le> n")
    case True
    then have ne: "?w \<noteq> []" using len by auto
    from True have s: "Suc n - 50 = Suc (n - 50)" by simp
    have "tl (?w @ [cs ! n]) = tl ?w @ [cs ! n]" using ne by simp
    also have "tl ?w = drop (Suc (n - 50)) (take n cs)" by (simp add: drop_Suc tl_drop)
    finally show ?thesis using True len ncs unfolding s tk by simp
  next
    case False
    then show ?thesis using len unfolding tk by simp
  qed
  finally show ?case .
qed

text \<open>
  Claim C2. Start from a bot with an empty window and the look-back of 50, and feed it
  readable candles \<open>cs\<close> of strictly increasing times. Before and after the upsert number
  \<open>n\<close> the window holds at most 50 candles. Below the cap the upsert appends the candle.
  At the cap it drops the head of the window, whose time is below that of every candle
  that stays, keeps the others in their order and appends the candle. The window is at
  every moment the last 50 candles fed.
\<close>

theorem window_fifo:
  assumes "candles b = []" and "lookback_period b = 50" and "length cs = length rs"
    and "\<forall>i<length rs. new_candle env (rs ! i) = Inr (cs ! i)"
    and "sorted_wrt (<) (map time cs)"
    and "n < length rs"
  shows "length (candles (feed env (take n rs) b)) \<le> 50 \<and>
         length (candles (feed env (take (Suc n) rs) b)) \<le> 50 \<and>
         (length (candles (feed env (take n rs) b)) < 50 \<longrightarrow>
            candles (feed env (take (Suc n) rs) b) = candles (feed env (take n rs) b) @ [cs ! n]) \<and>
         (length (candles (feed env (take n rs) b)) = 50 \<longrightarrow>
            candles (feed env (take (Suc n) rs) b) =
              tl (candles (feed env (take n rs) b)) @ [cs ! n] \<and>
            (\<forall>x \<in> set (tl (candles (feed env (take n rs) b))).
               time (hd (candles (feed env (take n rs) b))) < time x)) \<and>
         candles (feed env (take (Suc n) rs) b) = drop (Suc n - 50) (take (Suc n) cs)"
proof -
  let ?w = "candles (feed env (take n rs) b)"
  let ?w' = "candles (feed env (take (Suc n) rs) b)"
  from assms(6,3) have ncs: "n < length cs" by simp
  have w: "?w = drop (n - 50) (take n cs)"
    using feed_increasing[OF assms(1-5), of n] assms(6) by simp
  have w': "?w' = drop (Suc n - 50) (take (Suc n) cs)"
    using feed_increasing[OF assms(1-5), of "Suc n"] assms(6) by simp
  have tk: "take (Suc n) cs = take n cs @ [cs ! n]"
    using ncs by (simp add: take_Suc_conv_app_nth)
  have lw: "length ?w = min n 50" unfolding w using ncs by auto
  have lw': "length ?w' = min (Suc n) 50" unfolding w' using ncs by auto
  have app: "?w' = ?w @ [cs ! n]" if "length ?w < 50"
  proof -
    from that lw have "n < 50" by simp
    then show ?thesis unfolding w w' tk by simp
  qed
  have ev: "?w' = tl ?w @ [cs ! n]" if "length ?w = 50"
  proof -
    from that lw have n50: "50 \<le> n" by simp
    then have s: "Suc n - 50 = Suc (n - 50)" by simp
    have "tl ?w = drop (Suc (n - 50)) (take n cs)" unfolding w by (simp add: drop_Suc tl_drop)
    then show ?thesis unfolding w' s tk using n50 ncs by simp
  qed
  have srt: "sorted_wrt (<) (map time ?w)"
    unfolding w using assms(5)
    by (simp add: sorted_wrt_drop sorted_wrt_take flip: drop_map take_map)
  have old: "\<forall>x \<in> set (tl ?w). time (hd ?w) < time x" if "length ?w = 50"
  proof -
    from that obtain y ys where "?w = y # ys" by (cases ?w) simp_all
    with srt show ?thesis by simp
  qed
  from lw lw' app ev old w' show ?thesis by simp
qed

text \<open>Fifty-one flat candles, five minutes apart: the first one is gone, the others stay.\<close>

theorem window_fifo_witness:
  "candles init_bot = [] \<and> lookback_period init_bot = 50 \<and>
   sorted_wrt (<) (map time (map tick [0..<51])) \<and>
   list_all (\<lambda>i. new_candle env0 (map (\<lambda>k. raw_of (tick k)) [0..<51] ! i) =
               Inr (map tick [0..<51] ! i)) [0..<51] \<and>
   candles (feed env0 (map (\<lambda>k. raw_of (tick k)) [0..<51]) init_bot) = map tick [1..<51]"
proof -
  let ?rs = "map (\<lambda>k. raw_of (tick k)) [0..<51]"
  let ?cs = "map tick [0..<51]"
  have h1: "candles init_bot = []" and h2: "lookback_period init_bot = 50"
    by (simp_all add: init_bot_def)
  have h3: "length ?cs = length ?rs" by simp
  have h4: "\<forall>i<length ?rs. new_candle env0 (?rs ! i) = Inr (?cs ! i)"
    by (simp add: new_candle_raw_of)
  have h5: "sorted_wrt (<) (map time ?cs)"
    by (simp add: sorted_wrt_iff_nth_less tick_def)
  have h6: "50 < length ?rs" by simp
  have "candles (feed env0 (take (Suc 50) ?rs) init_bot) = drop (Suc 50 - 50) (take (Suc 50) ?cs)"
    using window_fifo[OF h1 h2 h3 h4 h5 h6] by blast
  moreover have "drop (Suc 50 - 50) (take (Suc 50) ?cs) = map tick [1..<51]"
    by (simp add: drop_map)
  ultimately have "candles (feed env0 ?rs init_bot) = map tick [1..<51]" by simp
  moreover have "list_all (\<lambda>i. new_candle env0 (?rs ! i) = Inr (?cs ! i)) [0..<51]"
    unfolding list_all_iff using h4 by simp
  ultimately show ?thesis using h1 h2 h5 by blast
qed

section \<open>Unreadable entries\<close>




section \<open>One candle per time\<close>

text \<open>
  The step of the window, away from the bot: if the times in the window increase
  strictly and none is above the time of the incoming candle, the same holds afterwards.
\<close>

lemma window_step_sorted:
  fixes w :: "candle list"
  assumes "sorted_wrt (<) (map time w)" and "\<forall>x \<in> set w. time x \<le> time c"
  shows "sorted_wrt (<) (map time (if w \<noteq> [] \<and> time (last w) = time c then butlast w @ [c]
                  else if ev then tl (w @ [c]) else w @ [c])) \<and>
         (\<forall>x \<in> set (if w \<noteq> [] \<and> time (last w) = time c then butlast w @ [c]
                  else if ev then tl (w @ [c]) else w @ [c]). time x \<le> time c)"
proof (cases "w \<noteq> [] \<and> time (last w) = time c")
  case True
  then have "map time (butlast w @ [c]) = map time w"
    by (cases w rule: rev_cases) simp_all
  then have "sorted_wrt (<) (map time (butlast w @ [c]))" using assms(1) by simp
  moreover have "\<forall>x \<in> set (butlast w @ [c]). time x \<le> time c"
    using assms(2) by (auto dest: in_set_butlastD)
  ultimately show ?thesis using True by simp
next
  case False
  have lt: "time x < time c" if "x \<in> set w" for x
  proof -
    from that have ne: "w \<noteq> []" by auto
    then have "w = butlast w @ [last w]" by simp
    then have "sorted_wrt (<) (map time (butlast w @ [last w]))" using assms(1) by simp
    then have "\<forall>y \<in> set (butlast w). time y < time (last w)"
      by (simp add: sorted_wrt_append)
    moreover from that ne have "x \<in> set (butlast w) \<or> x = last w"
      by (metis Un_iff append_butlast_last_id empty_iff empty_set set_ConsD set_append)
    ultimately have "time x \<le> time (last w)" by auto
    moreover have "time (last w) \<le> time c" using assms(2) ne by simp
    moreover have "time (last w) \<noteq> time c" using False ne by simp
    ultimately show ?thesis by simp
  qed
  then have s: "sorted_wrt (<) (map time (w @ [c]))"
    using assms(1) by (simp add: sorted_wrt_append)
  have "sorted_wrt (<) (map time (tl (w @ [c])))"
    using s by (cases "w @ [c]") simp_all
  moreover have "\<forall>x \<in> set (w @ [c]). time x \<le> time c" using assms(2) by simp
  moreover have "\<forall>x \<in> set (tl (w @ [c])). time x \<le> time c"
    using assms(2) by (cases w) auto
  ultimately show ?thesis
    unfolding if_not_P[OF False] using s by (cases ev) (simp_all del: tl_append2)
qed

lemma feed_nondecreasing:
  assumes "candles b = []" and "length cs = length rs"
    and "\<forall>i<length rs. new_candle env (rs ! i) = Inr (cs ! i)"
    and "sorted (map time cs)"
  shows "n \<le> length rs \<Longrightarrow>
         sorted_wrt (<) (map time (candles (feed env (take n rs) b))) \<and>
         (\<forall>x \<in> set (candles (feed env (take n rs) b)). 0 < n \<and> time x \<le> time (cs ! (n - 1)))"
proof (induction n)
  case 0
  then show ?case using assms(1) by (simp add: feed_def)
next
  case (Suc n)
  let ?w = "candles (feed env (take n rs) b)"
  from Suc have n: "n < length rs" and srt: "sorted_wrt (<) (map time ?w)"
    and bnd: "\<forall>x \<in> set ?w. 0 < n \<and> time x \<le> time (cs ! (n - 1))" by simp_all
  from n assms(2) have ncs: "n < length cs" by simp
  from n assms(3) have c: "new_candle env (rs ! n) = Inr (cs ! n)" by simp
  have "time (cs ! (n - 1)) \<le> time (cs ! n)" if "0 < n"
  proof -
    have "map time cs ! (n - 1) \<le> map time cs ! n"
      using assms(4) ncs by (intro sorted_nth_mono) simp_all
    then show ?thesis using ncs that by simp
  qed
  with bnd have le: "\<forall>x \<in> set ?w. time x \<le> time (cs ! n)" by fastforce
  from window_step_sorted[OF srt le] show ?case
    by (simp add: feed_take_Suc[OF n] update_candle_window[OF c])
qed

text \<open>
  The window holds the times 0 and 300 and the candle fed has the time 0 again: it is
  appended, not put in the place of the first candle, and the window that the three
  upserts reach from the empty one holds the time 0 twice.
\<close>

theorem earlier_time_appended_counterexample:
  "time (tick 0) \<in> time ` set (candles (init_bot\<lparr>candles := [tick 0, tick 1]\<rparr>)) \<and>
   candles (snd (update_candle env0 (raw_of (tick 0)) (init_bot\<lparr>candles := [tick 0, tick 1]\<rparr>))) =
     [tick 0, tick 1, tick 0] \<and>
   candles (feed env0 [raw_of (tick 0), raw_of (tick 1), raw_of (tick 0)] init_bot) =
     [tick 0, tick 1, tick 0] \<and>
   \<not> distinct (map time [tick 0, tick 1, tick 0])"
  by (simp add: feed_def update_candle_window new_candle_raw_of update_candle_config
      init_bot_def tick_def)

text \<open>
  Claim C4, amended. An upsert whose candle has the time of the last candle of a
  non-empty window replaces that last candle in place and appends nothing; the code
  looks at no other candle of the window. Consequently every window reached from the
  empty one by upserts of readable candles in non-decreasing order of time holds at most
  one candle per time.
\<close>

theorem upsert_compares_last_only:
  "(new_candle env ohlc = Inr c \<longrightarrow> candles b \<noteq> [] \<longrightarrow> time (last (candles b)) = time c \<longrightarrow>
      candles (snd (update_candle env ohlc b)) = butlast (candles b) @ [c]) \<and>
   (candles b0 = [] \<longrightarrow> length cs = length rs \<longrightarrow>
    (\<forall>i<length rs. new_candle env (rs ! i) = Inr (cs ! i)) \<longrightarrow> sorted (map time cs) \<longrightarrow>
      distinct (map time (candles (feed env rs b0))))"
proof (intro conjI impI)
  assume "new_candle env ohlc = Inr c" "candles b \<noteq> []" "time (last (candles b)) = time c"
  then show "candles (snd (update_candle env ohlc b)) = butlast (candles b) @ [c]"
    by (simp add: update_candle_window)
next
  assume "candles b0 = []" "length cs = length rs"
    "\<forall>i<length rs. new_candle env (rs ! i) = Inr (cs ! i)" "sorted (map time cs)"
  from feed_nondecreasing[OF this, of "length rs"]
  have "sorted_wrt (<) (map time (candles (feed env rs b0)))" by simp
  then show "distinct (map time (candles (feed env rs b0)))"
    by (simp add: strict_sorted_iff)
qed

text \<open>The times 0, 300, 300: the third upsert replaces the second candle.\<close>

theorem upsert_compares_last_only_witness:
  "new_candle env0 (raw_of (tick 1)) = Inr (tick 1) \<and>
   candles (snd (update_candle env0 (raw_of (tick 1)) (init_bot\<lparr>candles := [tick 0, tick 1]\<rparr>))) =
     [tick 0, tick 1] \<and>
   sorted (map time [tick 0, tick 1, tick 1]) \<and>
   distinct (map time (candles (feed env0 [raw_of (tick 0), raw_of (tick 1), raw_of (tick 1)] init_bot)))"
proof -
  have n: "\<forall>i<length [raw_of (tick 0), raw_of (tick 1), raw_of (tick 1)].
       new_candle env0 ([raw_of (tick 0), raw_of (tick 1), raw_of (tick 1)] ! i) =
       Inr ([tick 0, tick 1, tick 1] ! i)"
    by (simp add: new_candle_raw_of nth_Cons split: nat.splits)
  have s: "sorted (map time [tick 0, tick 1, tick 1])" by (simp add: tick_def)
  have e: "candles init_bot = []" by (simp add: init_bot_def)
  from upsert_compares_last_only[of env0 "raw_of (tick 1)" "tick 1"
      "init_bot\<lparr>candles := [tick 0, tick 1]\<rparr>" init_bot "[tick 0, tick 1, tick 1]"
      "[raw_of (tick 0), raw_of (tick 1), raw_of (tick 1)]"] n s e
  show ?thesis by (simp add: new_candle_raw_of)
qed

section \<open>A correction of the current candle\<close>

text \<open>
  Claim C5. On a non-empty window, the upsert of a readable candle with the time of the
  last candle raises nothing and changes the bot in one place only: the last candle of
  the window is the new one. The window keeps its length, every other candle stays
  where it was, the position is the same, and nothing is printed: no analysis pass
  runs.
\<close>

theorem same_time_replaces_last:
  assumes "candles b \<noteq> []" and "new_candle env ohlc = Inr c"
    and "time c = time (last (candles b))"
  shows "update_candle env ohlc b = (None, b\<lparr>candles := butlast (candles b) @ [c]\<rparr>) \<and>
         length (candles (snd (update_candle env ohlc b))) = length (candles b) \<and>
         (\<forall>i. i + 1 < length (candles b) \<longrightarrow>
              candles (snd (update_candle env ohlc b)) ! i = candles b ! i) \<and>
         last (candles (snd (update_candle env ohlc b))) = c \<and>
         position (snd (update_candle env ohlc b)) = position b \<and>
         out (snd (update_candle env ohlc b)) = out b"
proof -
  have "update_candle env ohlc b = (None, b\<lparr>candles := butlast (candles b) @ [c]\<rparr>)"
    using assms update_last[of "candles b" c] by (simp add: update_candle_def)
  then show ?thesis using assms(1) by (simp add: nth_append nth_butlast)
qed

text \<open>The candle at the time 300 comes again with a close of 2.\<close>

theorem same_time_replaces_last_witness:
  "candles (at_window [tick 0, tick 1]) \<noteq> [] \<and>
   new_candle env0 (raw_of ((tick 1)\<lparr>close := 2\<rparr>)) = Inr ((tick 1)\<lparr>close := 2\<rparr>) \<and>
   time ((tick 1)\<lparr>close := 2\<rparr>) = time (last (candles (at_window [tick 0, tick 1]))) \<and>
   update_candle env0 (raw_of ((tick 1)\<lparr>close := 2\<rparr>)) (at_window [tick 0, tick 1]) =
     (None, at_window [tick 0, (tick 1)\<lparr>close := 2\<rparr>])"
proof -
  have a: "candles (at_window [tick 0, tick 1]) \<noteq> []" by (simp add: at_window_def)
  have b: "new_candle env0 (raw_of ((tick 1)\<lparr>close := 2\<rparr>)) = Inr ((tick 1)\<lparr>close := 2\<rparr>)"
    by (rule new_candle_raw_of)
  have c: "time ((tick 1)\<lparr>close := 2\<rparr>) = time (last (candles (at_window [tick 0, tick 1])))"
    by (simp add: at_window_def)
  from same_time_replaces_last[OF a b c] a b c show ?thesis by (simp add: at_window_def)
qed

section \<open>The single position\<close>

text \<open>
  Claim C6. With no position open, the first of two calls of \<^verbatim>\<open>execute_trade\<close> in a row
  prints that it executes, records the position made of its trade type and of the entry,
  stop loss and take profit of its signal, and prints that the trade is logged. The
  second call prints that the bot is already in a position and changes nothing else:
  the position is the one the first call recorded. Neither call can raise.
\<close>

theorem second_trade_skipped:
  assumes "position b = None"
  shows "execute_trade t1 s1 b =
           b\<lparr>position := Some \<lparr>pos_type = t1, pos_entry = entry s1,
                pos_stop_loss = stop_loss s1, pos_take_profit = take_profit s1\<rparr>,
             out := out b @ [Executing t1, TradeLogged]\<rparr> \<and>
         execute_trade t2 s2 (execute_trade t1 s1 b) =
           (execute_trade t1 s1 b)\<lparr>out := out (execute_trade t1 s1 b) @ [AlreadyInPosition]\<rparr> \<and>
         position (execute_trade t2 s2 (execute_trade t1 s1 b)) =
           Some \<lparr>pos_type = t1, pos_entry = entry s1,
                pos_stop_loss = stop_loss s1, pos_take_profit = take_profit s1\<rparr>"
  using assms by (simp add: execute_trade_def print_def)

text \<open>A PUT, then a CALL, on the fresh bot.\<close>

theorem second_trade_skipped_witness:
  "position init_bot = None \<and>
   position (execute_trade CALL
       \<lparr>pattern = double_bottom, neckline = 17, entry = 50, stop_loss = 10, take_profit = 24\<rparr>
     (execute_trade PUT
       \<lparr>pattern = double_top, neckline = 92, entry = 50, stop_loss = 100, take_profit = 84\<rparr>
       init_bot)) =
     Some \<lparr>pos_type = PUT, pos_entry = 50, pos_stop_loss = 100, pos_take_profit = 84\<rparr>"
proof -
  let ?s1 = "\<lparr>pattern = double_top, neckline = 92, entry = 50, stop_loss = 100,
       take_profit = 84\<rparr>"
  let ?s2 = "\<lparr>pattern = double_bottom, neckline = 17, entry = 50, stop_loss = 10,
       take_profit = 24\<rparr>"
  have p: "position init_bot = None" by (simp add: init_bot_def)
  have "position (execute_trade CALL ?s2 (execute_trade PUT ?s1 init_bot)) =
     Some \<lparr>pos_type = PUT, pos_entry = entry ?s1, pos_stop_loss = stop_loss ?s1,
       pos_take_profit = take_profit ?s1\<rparr>"
    using second_trade_skipped[OF p, of PUT ?s1 CALL ?s2] by blast
  then show ?thesis using p by simp
qed

section \<open>Loading the history\<close>

text \<open>
  Claim C7. Loading the empty sequence does not succeed: \<^verbatim>\<open>process_candles\<close> empties
  the window, prints that it loaded 0 candles and calls \<^verbatim>\<open>analyze_patterns\<close>, whose read
  of \<^verbatim>\<open>self.candles[-1]\<close> raises \<^verbatim>\<open>IndexError\<close>. Nor does every non-empty load succeed: on
  twenty readable candles whose first top has the price 0 the window is loaded and the
  division by that price raises \<^verbatim>\<open>ZeroDivisionError\<close>.
\<close>

theorem load_raises:
  "process_candles env [] b = (Some IndexError, (b\<lparr>candles := []\<rparr>)\<lparr>out := out b @ [Loaded 0]\<rparr>) \<and>
   process_candles env0 (map raw_of zero_top_window) init_bot =
     (Some ZeroDivisionError,
      init_bot\<lparr>candles := zero_top_window, out := [Loaded 20, Analyzing 5700]\<rparr>)"
proof
  show "process_candles env [] b =
      (Some IndexError, (b\<lparr>candles := []\<rparr>)\<lparr>out := out b @ [Loaded 0]\<rparr>)"
    by (simp add: process_candles_def analyze_patterns_def lastE_def print_def)
  show "process_candles env0 (map raw_of zero_top_window) init_bot =
     (Some ZeroDivisionError,
      init_bot\<lparr>candles := zero_top_window, out := [Loaded 20, Analyzing 5700]\<rparr>)"
    by code_simp
qed

section \<open>Peaks of a rising series\<close>

text \<open>With the order 0 every index is a peak, of a rising series as of any other.\<close>

theorem order_zero_counterexample:
  "sorted_wrt (<) [1, 2, 3 :: real] \<and> length [1, 2, 3 :: real] > 2 * 0 \<and>
   find_peaks [1, 2, 3] 0 = [0, 1, 2]"
  by (simp add: find_peaks_def upt_rec[of "Suc _"] eval_nat_numeral)

text \<open>
  Claim C9, amended. For every order of at least 1 and every strictly increasing series,
  of a length above twice the order or not, \<^verbatim>\<open>find_peaks\<close> returns no index: the right
  neighbour of every eligible index is higher.
\<close>

theorem increasing_no_peaks:
  assumes "0 < order" and "sorted_wrt (<) data"
  shows "find_peaks data order = []"
proof -
  have "\<not> list_all (\<lambda>j. data ! i \<ge> data ! (i + j)) [1..<order + 1]"
    if "i \<in> set [order..<length data - order]" for i
  proof -
    from that assms(1) have "i + 1 < length data" by auto
    with assms(2) have "data ! i < data ! (i + 1)"
      by (simp add: sorted_wrt_nth_less)
    moreover from assms(1) have "1 \<in> set [1..<order + 1]" by auto
    ultimately show ?thesis unfolding list_all_iff by (metis not_le)
  qed
  then show ?thesis unfolding find_peaks_def filter_empty_conv by blast
qed

text \<open>The series 1 to 7 with the order 3.\<close>

theorem increasing_no_peaks_witness:
  "(0::nat) < 3 \<and> sorted_wrt (<) [1, 2, 3, 4, 5, 6, 7 :: real] \<and>
   length [1, 2, 3, 4, 5, 6, 7 :: real] > 2 * 3 \<and> find_peaks [1, 2, 3, 4, 5, 6, 7] 3 = []"
  using increasing_no_peaks[of 3 "[1, 2, 3, 4, 5, 6, 7]"] by simp

section \<open>The double top\<close>

lemma find_peaks_bound: "i \<in> set (find_peaks d k) \<Longrightarrow> i < length d"
  by (auto simp: find_peaks_def)

lemma find_peaks_sorted: "sorted_wrt (<) (find_peaks d k)"
  by (simp add: find_peaks_def sorted_wrt_filter)

lemma fold_min_lower: "c < x \<Longrightarrow> \<forall>y \<in> set xs. c < y \<Longrightarrow> c < fold min xs (x::real)"
  by (induction xs arbitrary: x) simp_all

lemma min_py_lower:
  "xs \<noteq> [] \<Longrightarrow> \<forall>y \<in> set xs. c < y \<Longrightarrow> \<exists>m. min_py xs = Inr m \<and> c < m"
  by (cases xs) (simp_all add: fold_min_lower)





section \<open>The series with tops at the indices 3 and 10\<close>

lemma series_peaks_gap:
  assumes "find_peaks (map high (candles b)) 3 = [3, 10]" and "7 < min_candles_between b"
  shows "detect_double_top b = Inr None"
proof -
  have "top_loop b (map high (candles b)) [3, 10] (Suc 0) = Inr None"
    using assms(2) by (simp add: bindE_def getE_def)
  then show ?thesis using assms(1) by (simp add: detect_double_top_def Let_def)
qed

lemma last_pair_confirms:
  assumes len: "20 \<le> length (candles b)"
    and peaks: "find_peaks (map high (candles b)) 3 = ps @ [p1, p2]"
    and gap: "min_candles_between b \<le> int p2 - int p1"
    and h1: "high (candles b ! p1) = 10" and h2: "high (candles b ! p2) = 10"
    and tol: "0 \<le> tolerance b"
    and brk: "\<forall>j. p1 \<le> j \<and> j \<le> p2 \<longrightarrow> close (last (candles b)) < low (candles b ! j)"
  shows "\<exists>s. detect_double_top b = Inr (Some s) \<and> pattern s = double_top \<and>
             peak1 s = 10 \<and> peak2 s = 10 \<and> entry s = close (last (candles b))"
proof -
  let ?highs = "map high (candles b)"
  let ?peaks = "find_peaks ?highs 3"
  have "p1 \<in> set ?peaks" "p2 \<in> set ?peaks" using peaks by simp_all
  then have b1: "p1 < length (candles b)" and b2: "p2 < length (candles b)"
    using find_peaks_bound[of _ ?highs 3] by simp_all
  have "sorted_wrt (<) (ps @ [p1, p2])" using find_peaks_sorted[of ?highs 3] peaks by simp
  then have lt: "p1 < p2" by (simp add: sorted_wrt_append)
  have g1: "getE ?peaks (length ps) = Inr p1" and g2: "getE ?peaks (length ps + 1) = Inr p2"
    using peaks by (simp_all add: getE_def nth_append)
  have gh1: "getE ?highs p1 = Inr 10" and gh2: "getE ?highs p2 = Inr 10"
    using b1 b2 h1 h2 by (simp_all add: getE_def)
  let ?bl = "map (\<lambda>j. low (candles b ! j)) [p1..<p2 + 1]"
  have bt: "between low (candles b) p1 p2 = Inr ?bl"
    using b2 by (simp add: between_def)
  have "?bl \<noteq> []" using lt by simp
  moreover have "\<forall>y \<in> set ?bl. close (last (candles b)) < y" using brk by auto
  ultimately obtain m where m: "min_py ?bl = Inr m" "close (last (candles b)) < m"
    using min_py_lower by blast
  have la: "lastE (candles b) = Inr (last (candles b))"
    using len by (auto simp: lastE_def)
  have "top_loop b ?highs ?peaks (Suc (length ps)) =
          Inr (Some \<lparr>pattern = double_top, neckline = m, entry = close (last (candles b)),
              stop_loss = max 10 10, take_profit = m - (max 10 10 - m),
              peak1 = 10, peak2 = 10\<rparr>)"
    using gap tol m
    by (simp add: g1[simplified] g2[simplified] gh1 gh2 bt la bindE_def Let_def
        del: min_py.simps)
  moreover have "length ?peaks - 1 = Suc (length ps)" using peaks by simp
  moreover have "\<not> length ?peaks < 2" using peaks by simp
  ultimately show ?thesis
    using len by (simp add: detect_double_top_def Let_def)
qed

text \<open>
  The window of fourteen candles with the highs of the series, whose last close of 3/10
  is under the lowest low 1/2 between the tops, and the window of twenty candles that
  begins with those highs and ends on the same close: the finder returns 3 and 10, and
  the detector returns no signal.
\<close>

theorem series_no_signal_counterexample:
  "map high series_window = [1, 2, 3, 10, 3, 2, 1, 1, 2, 3, 10, 3, 2, 1] \<and>
   find_peaks (map high series_window) 3 = [3, 10] \<and>
   min_py (map low (take 8 (drop 3 series_window))) = Inr (1/2) \<and>
   close (last series_window) = 3/10 \<and>
   detect_double_top (at_window series_window) = Inr None \<and>
   take 14 (map high series_window_20) = [1, 2, 3, 10, 3, 2, 1, 1, 2, 3, 10, 3, 2, 1] \<and>
   find_peaks (map high series_window_20) 3 = [3, 10] \<and>
   min_py (map low (take 8 (drop 3 series_window_20))) = Inr (1/2) \<and>
   close (last series_window_20) = 3/10 \<and>
   detect_double_top (at_window series_window_20) = Inr None"
  by code_simp

text \<open>
  Claim C1, amended. On the series 1, 2, 3, 10, 3, 2, 1, 1, 2, 3, 10, 3, 2, 1 with the
  order 3 the peak finder returns exactly the indices 3 and 10. These are 7 candles
  apart: whenever they are the peaks of a window and the minimal distance is above 7, as
  the default of 10 is, \<^verbatim>\<open>detect_double_top\<close> returns no signal, wherever the last close
  is. When the last two peaks of a window of at least twenty candles both have the high
  10 and are at least the minimal distance apart, the tolerance is not negative, and the
  last close is strictly under every low from the first of the two to the second, it
  returns a double top whose two peaks are 10.
\<close>

theorem series_peaks:
  "find_peaks [1, 2, 3, 10, 3, 2, 1, 1, 2, 3, 10, 3, 2, 1] 3 = [3, 10] \<and>
   (find_peaks (map high (candles b)) 3 = [3, 10] \<longrightarrow> 7 < min_candles_between b \<longrightarrow>
      detect_double_top b = Inr None) \<and>
   (20 \<le> length (candles b') \<longrightarrow> find_peaks (map high (candles b')) 3 = ps @ [p1, p2] \<longrightarrow>
    min_candles_between b' \<le> int p2 - int p1 \<longrightarrow>
    high (candles b' ! p1) = 10 \<longrightarrow> high (candles b' ! p2) = 10 \<longrightarrow> 0 \<le> tolerance b' \<longrightarrow>
    (\<forall>j. p1 \<le> j \<and> j \<le> p2 \<longrightarrow> close (last (candles b')) < low (candles b' ! j)) \<longrightarrow>
      (\<exists>s. detect_double_top b' = Inr (Some s) \<and> pattern s = double_top \<and>
           peak1 s = 10 \<and> peak2 s = 10 \<and> entry s = close (last (candles b'))))"
proof (intro conjI impI)
  show "find_peaks [1, 2, 3, 10, 3, 2, 1, 1, 2, 3, 10, 3, 2, 1] 3 = [3, 10]"
    by code_simp
qed (erule (1) series_peaks_gap, erule (6) last_pair_confirms)

text \<open>
  The window of twenty candles that begins with the series, and the window with tops of
  10 at the indices 3 and 13.
\<close>

theorem series_peaks_witness:
  "find_peaks (map high (candles (at_window series_window_20))) 3 = [3, 10] \<and>
   7 < min_candles_between (at_window series_window_20) \<and>
   detect_double_top (at_window series_window_20) = Inr None \<and>
   20 \<le> length (candles (at_window top_window_10)) \<and>
   find_peaks (map high (candles (at_window top_window_10))) 3 = [] @ [3, 13] \<and>
   min_candles_between (at_window top_window_10) \<le> int 13 - int 3 \<and>
   high (candles (at_window top_window_10) ! 3) = 10 \<and>
   high (candles (at_window top_window_10) ! 13) = 10 \<and>
   0 \<le> tolerance (at_window top_window_10) \<and>
   list_all (\<lambda>j. close (last (candles (at_window top_window_10)))
        < low (candles (at_window top_window_10) ! j)) [3..<14] \<and>
   (\<exists>s. detect_double_top (at_window top_window_10) = Inr (Some s) \<and> pattern s = double_top \<and>
        peak1 s = 10 \<and> peak2 s = 10)"
proof -
  have a1: "find_peaks (map high (candles (at_window series_window_20))) 3 = [3, 10]"
    by code_simp
  have a2: "7 < min_candles_between (at_window series_window_20)"
    by (simp add: at_window_def init_bot_def)
  have b1: "20 \<le> length (candles (at_window top_window_10))" by code_simp
  have b2: "find_peaks (map high (candles (at_window top_window_10))) 3 = [] @ [3, 13]"
    by code_simp
  have b3: "min_candles_between (at_window top_window_10) \<le> int 13 - int 3"
    by (simp add: at_window_def init_bot_def)
  have b4: "high (candles (at_window top_window_10) ! 3) = 10"
    and b5: "high (candles (at_window top_window_10) ! 13) = 10" by code_simp+
  have b6: "0 \<le> tolerance (at_window top_window_10)"
    by (simp add: at_window_def init_bot_def)
  have b7l: "list_all (\<lambda>j. close (last (candles (at_window top_window_10)))
        < low (candles (at_window top_window_10) ! j)) [3..<14]" by code_simp
  have b7: "\<forall>j. 3 \<le> j \<and> j \<le> 13 \<longrightarrow> close (last (candles (at_window top_window_10)))
        < low (candles (at_window top_window_10) ! j)"
  proof (intro allI impI)
    fix j :: nat assume "3 \<le> j \<and> j \<le> 13"
    then have "j \<in> set [3..<14]" unfolding set_upt by simp
    with b7l show "close (last (candles (at_window top_window_10)))
        < low (candles (at_window top_window_10) ! j)" unfolding list_all_iff by blast
  qed
  from series_peaks[of "at_window series_window_20" "at_window top_window_10" "[]" 3 13]
    a1 a2 b1 b2 b3 b4 b5 b6 b7 b7l
  show ?thesis by blast
qed

section \<open>Both patterns in one pass\<close>

lemma top_loop_config:
  "candles b' = candles b \<Longrightarrow> tolerance b' = tolerance b \<Longrightarrow>
   min_candles_between b' = min_candles_between b \<Longrightarrow>
   top_loop b' highs peaks n = top_loop b highs peaks n"
  by (induction n) (simp_all cong del: if_weak_cong)

lemma bottom_loop_config:
  "candles b' = candles b \<Longrightarrow> tolerance b' = tolerance b \<Longrightarrow>
   min_candles_between b' = min_candles_between b \<Longrightarrow>
   bottom_loop b' lows troughs n = bottom_loop b lows troughs n"
  by (induction n) (simp_all cong del: if_weak_cong)

lemma detect_config:
  assumes "candles b' = candles b" and "tolerance b' = tolerance b"
    and "min_candles_between b' = min_candles_between b"
  shows "detect_double_top b' = detect_double_top b"
    and "detect_double_bottom b' = detect_double_bottom b"
  using assms top_loop_config[OF assms] bottom_loop_config[OF assms]
  by (simp_all add: detect_double_top_def detect_double_bottom_def Let_def)

text \<open>
  Claim C10. Take an analysis pass that reaches the detectors, on a bot with no position
  open whose window makes both \<^verbatim>\<open>detect_double_top\<close> and \<^verbatim>\<open>detect_double_bottom\<close> return
  a signal. The double top comes first: its PUT is executed and recorded as the
  position. The double bottom is then detected and printed, and its CALL is skipped
  because a position is open. The pass raises nothing and leaves the PUT as the one
  position.
\<close>

theorem both_confirm_top_first:
  assumes "position b = None" and "ts_valid env (time (last (candles b)))"
    and "detect_double_top b = Inr (Some st)" and "detect_double_bottom b = Inr (Some sb)"
  shows "analyze_patterns env b =
           (None, b\<lparr>position := Some \<lparr>pos_type = PUT, pos_entry = entry st,
                      pos_stop_loss = stop_loss st, pos_take_profit = take_profit st\<rparr>,
                    out := out b @ [Analyzing (time (last (candles b))), TopDetected st,
                      Executing PUT, TradeLogged, BottomDetected sb, AlreadyInPosition]\<rparr>)"
proof -
  from assms(3) have ne: "candles b \<noteq> []"
    by (auto simp: detect_double_top_def split: if_splits)
  let ?b1 = "print (Analyzing (time (last (candles b)))) b"
  let ?b2 = "execute_trade PUT st (print (TopDetected st) ?b1)"
  have d1: "detect_double_top ?b1 = Inr (Some st)"
    using assms(3) detect_config(1)[of ?b1 b] by (simp add: print_def)
  have d2: "detect_double_bottom ?b2 = Inr (Some sb)"
    using assms(4) detect_config(2)[of ?b2 b] by (simp add: print_def execute_trade_def)
  have p2: "position ?b2 \<noteq> None" by (simp add: execute_trade_def print_def)
  show ?thesis
    using ne assms(1,2) d2 p2 unfolding analyze_patterns_def lastE_def
    by (simp add: d1 Let_def) (simp add: execute_trade_def print_def)
qed

text \<open>The window with two bottoms of 10, two tops of 100 and a last close of 50.\<close>

theorem both_confirm_top_first_witness:
  "position (at_window both_window) = None \<and>
   detect_double_top (at_window both_window) =
     Inr (Some \<lparr>pattern = double_top, neckline = 92, entry = 50, stop_loss = 100,
       take_profit = 84, peak1 = 100, peak2 = 100\<rparr>) \<and>
   detect_double_bottom (at_window both_window) =
     Inr (Some \<lparr>pattern = double_bottom, neckline = 17, entry = 50, stop_loss = 10,
       take_profit = 24, trough1 = 10, trough2 = 10\<rparr>) \<and>
   position (snd (analyze_patterns env0 (at_window both_window))) =
     Some \<lparr>pos_type = PUT, pos_entry = 50, pos_stop_loss = 100, pos_take_profit = 84\<rparr>"
proof -
  have p: "position (at_window both_window) = None"
    by (simp add: at_window_def init_bot_def)
  have v: "ts_valid env0 (time (last (candles (at_window both_window))))"
    by (simp add: env0_def)
  have t: "detect_double_top (at_window both_window) =
     Inr (Some \<lparr>pattern = double_top, neckline = 92, entry = 50, stop_loss = 100,
       take_profit = 84, peak1 = 100, peak2 = 100\<rparr>)"
    by code_simp
  have u: "detect_double_bottom (at_window both_window) =
     Inr (Some \<lparr>pattern = double_bottom, neckline = 17, entry = 50, stop_loss = 10,
       take_profit = 24, trough1 = 10, trough2 = 10\<rparr>)"
    by code_simp
  from both_confirm_top_first[OF p v t u] p t u show ?thesis by simp
qed

end
